theory Spec2Isabelle
  imports Main "HOL-Library.FSet"
begin

section \<open>The checklist screen of src/app/analytics.tsx\<close>

text \<open>
  The component \<^verbatim>\<open>ChecklistsScreen\<close> keeps its whole state in eight \<^verbatim>\<open>useState\<close>
  cells and changes them through a handful of handlers and one \<^verbatim>\<open>useEffect\<close> that
  drives the countdown. The cells become the fields of a record, each handler becomes a
  function from the record to the updated record, and the alert raised by the countdown
  becomes an output list returned beside the new state.

  A TypeScript \<^verbatim>\<open>number\<close> is an IEEE-754 double. The step orders and the numbers of
  seconds are whole numbers, and a cell that holds one is modelled as an \<^typ>\<open>int\<close>.
  Comparison of two such numbers is exact; the one subtraction of the component,
  \<^verbatim>\<open>prev - 1\<close>, is rounded to the nearest double as the machine does (\<open>jsMinus\<close> below),
  which is the exact difference up to \<open>2 ^ 53\<close> and not beyond. A \<^verbatim>\<open>Set<number>\<close> is always
  finite and is modelled as an \<^typ>\<open>int fset\<close>; an optional field and a nullable cell
  are \<^typ>\<open>'a option\<close>.
\<close>

subsection \<open>Data\<close>

text \<open>\<^verbatim>\<open>interface ChecklistStep\<close>.\<close>

record ChecklistStep =
  order :: int
  title :: string
  description :: string
  timer_seconds :: "int option"
  is_safety :: bool
  safety_note :: "string option"

text \<open>\<^verbatim>\<open>interface Checklist\<close>; the field \<^verbatim>\<open>_id\<close> is written \<open>checklist_id\<close>.\<close>

record Checklist =
  checklist_id :: string
  name :: string
  device_type :: string
  repair_type :: string
  steps :: "ChecklistStep list"
  estimated_time_minutes :: int

text \<open>The \<^verbatim>\<open>useState\<close> cells of \<^verbatim>\<open>ChecklistsScreen\<close>, in the order they are declared.\<close>

record screen =
  checklists :: "Checklist list"
  loading :: bool
  refreshing :: bool
  selectedChecklist :: "Checklist option"
  completedSteps :: "int fset"
  activeTimer :: "int option"
  timerValue :: int
  timerRunning :: bool

text \<open>The initial values given to \<^verbatim>\<open>useState\<close>.\<close>

definition initial :: screen where
  "initial =
     \<lparr>checklists = [], loading = True, refreshing = False, selectedChecklist = None,
      completedSteps = {||}, activeTimer = None, timerValue = 0, timerRunning = False\<rparr>"

text \<open>An alert is the pair of strings handed to \<^verbatim>\<open>Alert.alert(title, message)\<close>.\<close>

type_synonym alert = "string \<times> string"

subsection \<open>Handlers\<close>

definition openChecklist :: "Checklist \<Rightarrow> screen \<Rightarrow> screen" where
  "openChecklist checklist s =
     s\<lparr>selectedChecklist := Some checklist, completedSteps := {||}, activeTimer := None,
       timerValue := 0, timerRunning := False\<rparr>"

definition closeChecklist :: "screen \<Rightarrow> screen" where
  "closeChecklist s =
     s\<lparr>selectedChecklist := None, completedSteps := {||}, activeTimer := None,
       timerValue := 0, timerRunning := False\<rparr>"

text \<open>
  \<^verbatim>\<open>toggleStep\<close> copies the set, deletes the order when the copy has it and adds it
  otherwise, and stores the copy. It never looks at the open checklist.
\<close>

definition toggleStep :: "int \<Rightarrow> screen \<Rightarrow> screen" where
  "toggleStep stepOrder s =
     (let newCompleted = completedSteps s in
      if stepOrder |\<in>| newCompleted
      then s\<lparr>completedSteps := newCompleted |-| {|stepOrder|}\<rparr>
      else s\<lparr>completedSteps := finsert stepOrder newCompleted\<rparr>)"

definition startTimer :: "int \<Rightarrow> int \<Rightarrow> screen \<Rightarrow> screen" where
  "startTimer stepOrder seconds s =
     s\<lparr>activeTimer := Some stepOrder, timerValue := seconds, timerRunning := True\<rparr>"

definition stopTimer :: "screen \<Rightarrow> screen" where
  "stopTimer s = s\<lparr>timerRunning := False\<rparr>"

subsection \<open>The countdown\<close>

text \<open>
  The effect installs a one-second interval only when \<^verbatim>\<open>timerRunning && timerValue > 0\<close>
  and clears it whenever either cell changes, so a tick of the clock reaches the state
  only under that guard.
\<close>

definition intervalInstalled :: "screen \<Rightarrow> bool" where
  "intervalInstalled s = (timerRunning s \<and> timerValue s > 0)"

text \<open>
  Subtraction of two whole-numbered doubles. Below \<open>2 ^ 53\<close> every whole number is a
  double; from there on the doubles are the multiples of a spacing that doubles with
  each power of two: 2 from \<open>2 ^ 53\<close>, 4 from \<open>2 ^ 54\<close>, and so on. \<open>doubleSpacing a\<close>
  is the spacing at magnitude \<open>a\<close>.
\<close>

function doubleSpacing :: "nat \<Rightarrow> nat" where
  "doubleSpacing a = (if a < 9007199254740992 then 1 else 2 * doubleSpacing (a div 2))"
  by pat_completeness auto
termination
  by (relation "measure id") auto

declare doubleSpacing.simps [simp del]

text \<open>
  The double nearest to a whole number: the nearer of the two neighbouring multiples of
  the spacing, and of two equally near ones the one with the even multiplier (round to
  nearest, ties to even). Magnitudes beyond the largest finite double are not met: the
  result of \<^verbatim>\<open>prev - 1\<close> for \<^verbatim>\<open>prev > 1\<close> is never larger than \<^verbatim>\<open>prev\<close>.
\<close>

definition roundToDouble :: "int \<Rightarrow> int" where
  "roundToDouble x =
     (let a = nat \<bar>x\<bar>;
          u = doubleSpacing a;
          q = a div u;
          r = a mod u;
          m = (if 2 * r < u \<or> (2 * r = u \<and> even q) then q * u else (q + 1) * u)
      in if x < 0 then - int m else int m)"

text \<open>\<^verbatim>\<open>a - b\<close> on numbers: the exact difference, rounded to a double.\<close>

definition jsMinus :: "int \<Rightarrow> int \<Rightarrow> int" where
  "jsMinus a b = roundToDouble (a - b)"

text \<open>
  The interval's callback: \<^verbatim>\<open>setTimerValue((prev) => ...)\<close>. When \<^verbatim>\<open>prev <= 1\<close> it
  stops the timer, raises the alert and stores 0; otherwise it stores \<^verbatim>\<open>prev - 1\<close>.
  The updater is taken to run once per firing of the interval, with \<^verbatim>\<open>prev\<close> the
  current value of the cell.
\<close>

definition timerCompleteAlert :: alert where
  "timerCompleteAlert = (''Timer Complete'', ''Step timer has finished!'')"

definition onInterval :: "screen \<Rightarrow> screen \<times> alert list" where
  "onInterval s =
     (let prev = timerValue s in
      if prev \<le> 1
      then (s\<lparr>timerRunning := False, timerValue := 0\<rparr>, [timerCompleteAlert])
      else (s\<lparr>timerValue := jsMinus prev 1\<rparr>, []))"

text \<open>One second of the external clock.\<close>

definition tick :: "screen \<Rightarrow> screen \<times> alert list" where
  "tick s = (if intervalInstalled s then onInterval s else (s, []))"

text \<open>\<open>n\<close> seconds of the clock with no other event in between; the alerts are collected in order.\<close>

primrec ticks :: "nat \<Rightarrow> screen \<Rightarrow> screen \<times> alert list" where
  "ticks 0 s = (s, [])"
| "ticks (Suc n) s =
     (case tick s of (s', out) \<Rightarrow>
        (case ticks n s' of (s'', out') \<Rightarrow> (s'', out @ out')))"

subsection \<open>What the modal renders\<close>

text \<open>
  The banner "All steps completed!" is shown under the condition
  \<^verbatim>\<open>selectedChecklist && completedSteps.size === selectedChecklist.steps.length\<close>.
\<close>

definition allStepsComplete :: "screen \<Rightarrow> bool" where
  "allStepsComplete s =
     (case selectedChecklist s of
        None \<Rightarrow> False
      | Some c \<Rightarrow> fcard (completedSteps s) = length (steps c))"

text \<open>The step orders that the open checklist defines.\<close>

definition stepOrders :: "Checklist \<Rightarrow> int fset" where
  "stepOrders c = fset_of_list (map order (steps c))"

text \<open>
  The test \<^verbatim>\<open>activeTimer === step.order\<close> of line 641, on its own: whether an order is
  the one that owns the timer. In the modal it is nested in the timer section, which is
  rendered only for a step with a truthy \<^verbatim>\<open>timer_seconds\<close>; that outer guard is part of
  \<open>pressTimerButton\<close> below and not of this test.
\<close>

definition showsActiveTimer :: "screen \<Rightarrow> int \<Rightarrow> bool" where
  "showsActiveTimer s stepOrder = (activeTimer s = Some stepOrder)"

text \<open>
  The timer button of a step row. The timer section is rendered only when
  \<^verbatim>\<open>step.timer_seconds\<close> is truthy (present and not 0). On the row that owns the timer the
  button pauses a running timer and otherwise calls
  \<^verbatim>\<open>startTimer(step.order, timerValue || step.timer_seconds!)\<close>; on any other row it calls
  \<^verbatim>\<open>startTimer(step.order, step.timer_seconds!)\<close>. A row without a button leaves the state
  as it is.
\<close>

definition pressTimerButton :: "ChecklistStep \<Rightarrow> screen \<Rightarrow> screen" where
  "pressTimerButton step s =
     (case timer_seconds step of
        None \<Rightarrow> s
      | Some d \<Rightarrow>
          if d = 0 then s
          else if activeTimer s = Some (order step)
          then (if timerRunning s then stopTimer s
                else startTimer (order step) (if timerValue s \<noteq> 0 then timerValue s else d) s)
          else startTimer (order step) d s)"

subsection \<open>Events\<close>

text \<open>
  The events of a checklist session: the five handlers and the clock. A run applies a
  list of events from left to right and collects the alerts. \<^verbatim>\<open>fetchChecklists\<close> and
  \<^verbatim>\<open>onRefresh\<close> are not among the events; they write the cells \<open>checklists\<close>, \<open>loading\<close>
  and \<open>refreshing\<close> only.
\<close>

datatype event =
    OpenChecklist Checklist
  | CloseChecklist
  | ToggleStep int
  | StartTimer int int
  | StopTimer
  | Tick

fun dispatch :: "event \<Rightarrow> screen \<Rightarrow> screen \<times> alert list" where
  "dispatch (OpenChecklist c) s = (openChecklist c s, [])"
| "dispatch CloseChecklist s = (closeChecklist s, [])"
| "dispatch (ToggleStep stepOrder) s = (toggleStep stepOrder s, [])"
| "dispatch (StartTimer stepOrder seconds) s = (startTimer stepOrder seconds s, [])"
| "dispatch StopTimer s = (stopTimer s, [])"
| "dispatch Tick s = tick s"

fun run :: "event list \<Rightarrow> screen \<Rightarrow> screen \<times> alert list" where
  "run [] s = (s, [])"
| "run (e # es) s =
     (case dispatch e s of (s', out) \<Rightarrow>
        (case run es s' of (s'', out') \<Rightarrow> (s'', out @ out')))"

subsection \<open>Orders drawn from the open checklist\<close>

text \<open>
  The modal renders one row per step of \<^verbatim>\<open>selectedChecklist?.steps\<close> and a row calls
  \<^verbatim>\<open>toggleStep(step.order)\<close>, so a toggle that comes from the screen carries an order of
  the open checklist. A list of events respects this when each of its toggles does, in
  the state in which it is applied.
\<close>

fun toggleFromDefinition :: "event \<Rightarrow> screen \<Rightarrow> bool" where
  "toggleFromDefinition (ToggleStep stepOrder) s =
     (case selectedChecklist s of None \<Rightarrow> False | Some c \<Rightarrow> stepOrder |\<in>| stepOrders c)"
| "toggleFromDefinition _ s = True"

fun validToggles :: "event list \<Rightarrow> screen \<Rightarrow> bool" where
  "validToggles [] s = True"
| "validToggles (e # es) s = (toggleFromDefinition e s \<and> validToggles es (fst (dispatch e s)))"

text \<open>The completed orders all belong to the open checklist (none are kept when none is open).\<close>

definition completedWithin :: "screen \<Rightarrow> bool" where
  "completedWithin s =
     (case selectedChecklist s of
        None \<Rightarrow> completedSteps s = {||}
      | Some c \<Rightarrow> completedSteps s |\<subseteq>| stepOrders c)"

subsection \<open>Example data\<close>

definition exampleStep :: "int \<Rightarrow> int option \<Rightarrow> ChecklistStep" where
  "exampleStep n t =
     \<lparr>order = n, title = ''Heat the back glass'', description = ''Apply heat evenly'',
      timer_seconds = t, is_safety = False, safety_note = None\<rparr>"

definition exampleChecklist :: "ChecklistStep list \<Rightarrow> Checklist" where
  "exampleChecklist ss =
     \<lparr>checklist_id = ''c1'', name = ''Back glass'', device_type = ''phone'',
      repair_type = ''back_glass'', steps = ss, estimated_time_minutes = 45\<rparr>"

section \<open>Properties\<close>

subsection \<open>The clock\<close>

lemma tick_idle: "\<not> intervalInstalled s \<Longrightarrow> tick s = (s, [])"
  by (simp add: tick_def)

lemma ticks_idle: "\<not> intervalInstalled s \<Longrightarrow> ticks n s = (s, [])"
  by (induction n) (simp_all add: tick_idle)

lemma doubleSpacing_small: "a < 9007199254740992 \<Longrightarrow> doubleSpacing a = 1"
  by (simp add: doubleSpacing.simps)

lemma roundToDouble_exact: "\<bar>x\<bar> < 9007199254740992 \<Longrightarrow> roundToDouble x = x"
  by (simp add: roundToDouble_def doubleSpacing_small Let_def)

lemma jsMinus_exact: "\<bar>a - b\<bar> < 9007199254740992 \<Longrightarrow> jsMinus a b = a - b"
  by (simp add: jsMinus_def roundToDouble_exact)

lemma doubleSpacing_above: "doubleSpacing 9007199254740993 = 2"
  "doubleSpacing 9007199254740995 = 2"
  by (simp_all add: doubleSpacing.simps [of 9007199254740993]
      doubleSpacing.simps [of 9007199254740995] doubleSpacing_small)

lemma jsMinus_above:
  "jsMinus 9007199254740994 1 = 9007199254740992"
  "jsMinus 9007199254740996 1 = 9007199254740996"
  by (simp_all add: jsMinus_def roundToDouble_def doubleSpacing_above Let_def)

lemma tick_decrement:
  "timerRunning s \<Longrightarrow> 1 < timerValue s \<Longrightarrow> timerValue s \<le> 2 ^ 53 \<Longrightarrow>
   tick s = (s\<lparr>timerValue := timerValue s - 1\<rparr>, [])"
  by (simp add: tick_def intervalInstalled_def onInterval_def jsMinus_exact)

lemma tick_finish:
  "timerRunning s \<Longrightarrow> timerValue s = 1 \<Longrightarrow>
   tick s = (s\<lparr>timerRunning := False, timerValue := 0\<rparr>, [timerCompleteAlert])"
  by (simp add: tick_def intervalInstalled_def onInterval_def)

lemma ticks_five:
  "ticks 4 (startTimer step 5 s) =
     (s\<lparr>activeTimer := Some step, timerValue := 1, timerRunning := True\<rparr>, [])"
  "ticks 5 (startTimer step 5 s) =
     (s\<lparr>activeTimer := Some step, timerValue := 0, timerRunning := False\<rparr>, [timerCompleteAlert])"
  by (simp_all add: eval_nat_numeral tick_def intervalInstalled_def onInterval_def jsMinus_exact startTimer_def)

text \<open>
  C1, as the code has it. While the timer runs, a tick taken with more than one second
  left and at most \<open>2 ^ 53\<close> takes exactly one second off and raises nothing. The tick
  taken with one second left stores 0, stops the timer and raises exactly one alert, the
  fixed \<open>timerCompleteAlert\<close>; it leaves \<open>completedSteps\<close> alone, and \<open>activeTimer\<close>
  still names the step. For every step and every earlier state, \<open>startTimer step 5\<close> and
  four ticks leave one second on a running timer, and the fifth tick ends at 0, stopped,
  with exactly one alert over the five ticks.
\<close>

theorem timer_tick_semantics:
  "(timerRunning s \<and> 1 < timerValue s \<and> timerValue s \<le> 2 ^ 53 \<longrightarrow>
      tick s = (s\<lparr>timerValue := timerValue s - 1\<rparr>, []))
   \<and> (timerRunning t \<and> timerValue t = 1 \<longrightarrow>
      tick t = (t\<lparr>timerRunning := False, timerValue := 0\<rparr>, [timerCompleteAlert])
      \<and> completedSteps (fst (tick t)) = completedSteps t
      \<and> activeTimer (fst (tick t)) = activeTimer t)
   \<and> ticks 4 (startTimer step 5 u) =
       (u\<lparr>activeTimer := Some step, timerValue := 1, timerRunning := True\<rparr>, [])
   \<and> ticks 5 (startTimer step 5 u) =
       (u\<lparr>activeTimer := Some step, timerValue := 0, timerRunning := False\<rparr>,
        [timerCompleteAlert])"
  by (simp add: tick_decrement tick_finish ticks_five)

theorem timer_tick_semantics_witness:
  "timerRunning (startTimer 2 3 initial) \<and> 1 < timerValue (startTimer 2 3 initial)
   \<and> timerValue (startTimer 2 3 initial) \<le> 2 ^ 53
   \<and> tick (startTimer 2 3 initial) = (startTimer 2 2 initial, [])
   \<and> timerRunning (startTimer 2 1 initial) \<and> timerValue (startTimer 2 1 initial) = 1
   \<and> tick (startTimer 2 1 initial) =
       (initial\<lparr>activeTimer := Some 2\<rparr>, [(''Timer Complete'', ''Step timer has finished!'')])
   \<and> completedSteps (fst (tick (startTimer 2 1 initial))) = {||}"
  using timer_tick_semantics [of "startTimer 2 3 initial" "startTimer 2 1 initial" 2 initial]
  by (simp add: startTimer_def initial_def timerCompleteAlert_def)

text \<open>
  C1 as the spec words it asks for a notification that identifies the finished step,
  and for one second off at every tick above one second. The alert raised for step 1
  and the alert raised for step 2 are the same two strings: the step is found in
  \<open>activeTimer\<close>, not in the alert. And above \<open>2 ^ 53\<close> the subtraction is rounded: a
  running timer at \<open>2 ^ 53 + 2\<close> seconds loses two seconds at a tick, and one at
  \<open>2 ^ 53 + 4\<close> seconds loses none.
\<close>

theorem alert_carries_no_step:
  "snd (ticks 5 (startTimer 1 5 initial)) = [(''Timer Complete'', ''Step timer has finished!'')]
   \<and> snd (ticks 5 (startTimer 2 5 initial)) = [(''Timer Complete'', ''Step timer has finished!'')]
   \<and> activeTimer (fst (ticks 5 (startTimer 1 5 initial))) = Some 1
   \<and> activeTimer (fst (ticks 5 (startTimer 2 5 initial))) = Some 2
   \<and> timerValue (fst (tick (startTimer 1 9007199254740994 initial))) = 9007199254740992
   \<and> timerValue (fst (tick (startTimer 1 9007199254740996 initial))) = 9007199254740996"
proof -
  have rounded: "timerValue (fst (tick (startTimer 1 9007199254740994 initial))) = 9007199254740992
      \<and> timerValue (fst (tick (startTimer 1 9007199254740996 initial))) = 9007199254740996"
    by (simp add: tick_def intervalInstalled_def onInterval_def startTimer_def jsMinus_above)
  then show ?thesis
    by (simp add: ticks_five timerCompleteAlert_def)
qed

subsection \<open>The completion banner\<close>

lemma fcard_stepOrders:
  "distinct (map order (steps c)) \<Longrightarrow> fcard (stepOrders c) = length (steps c)"
  using distinct_card [of "map order (steps c)"]
  by (simp add: stepOrders_def fcard.rep_eq fset_of_list.rep_eq)

text \<open>
  C2, as the code has it. The banner condition holds exactly when a checklist is open
  and the number of completed orders equals the number of its steps; for a checklist
  with no step, exactly when nothing is completed. When the open checklist's step
  orders are pairwise distinct and the completed orders are among them, the condition
  holds exactly when the completed orders are all the step orders of the checklist.
\<close>

theorem allStepsComplete_iff_all_orders:
  "(selectedChecklist s = None \<longrightarrow> \<not> allStepsComplete s)
   \<and> (selectedChecklist s = Some c \<longrightarrow>
        allStepsComplete s = (fcard (completedSteps s) = length (steps c)))
   \<and> (selectedChecklist s = Some c \<and> steps c = [] \<longrightarrow>
        allStepsComplete s = (completedSteps s = {||}))
   \<and> (selectedChecklist s = Some c \<and> distinct (map order (steps c))
        \<and> completedSteps s |\<subseteq>| stepOrders c \<longrightarrow>
        allStepsComplete s = (completedSteps s = stepOrders c))"
proof (intro conjI impI)
  assume "selectedChecklist s = None"
  then show "\<not> allStepsComplete s"
    by (simp add: allStepsComplete_def)
next
  assume "selectedChecklist s = Some c"
  then show "allStepsComplete s = (fcard (completedSteps s) = length (steps c))"
    by (simp add: allStepsComplete_def)
next
  assume "selectedChecklist s = Some c \<and> steps c = []"
  then show "allStepsComplete s = (completedSteps s = {||})"
    by (simp add: allStepsComplete_def)
next
  assume h: "selectedChecklist s = Some c \<and> distinct (map order (steps c))
        \<and> completedSteps s |\<subseteq>| stepOrders c"
  then have sel: "selectedChecklist s = Some c"
    and sub: "completedSteps s |\<subseteq>| stepOrders c"
    by simp_all
  from h have len: "length (steps c) = fcard (stepOrders c)"
    by (simp add: fcard_stepOrders)
  show "allStepsComplete s = (completedSteps s = stepOrders c)"
  proof
    assume "allStepsComplete s"
    then have "fcard (stepOrders c) \<le> fcard (completedSteps s)"
      using sel len by (simp add: allStepsComplete_def)
    with sub show "completedSteps s = stepOrders c"
      by (rule fcard_seteq)
  next
    assume "completedSteps s = stepOrders c"
    then show "allStepsComplete s"
      using sel len by (simp add: allStepsComplete_def)
  qed
qed

theorem allStepsComplete_iff_all_orders_witness:
  "selectedChecklist initial = None \<and> \<not> allStepsComplete initial
   \<and> selectedChecklist (openChecklist (exampleChecklist []) initial) = Some (exampleChecklist [])
   \<and> steps (exampleChecklist []) = []
   \<and> allStepsComplete (openChecklist (exampleChecklist []) initial)
   \<and> selectedChecklist (toggleStep 2 (toggleStep 1
      (openChecklist (exampleChecklist [exampleStep 1 None, exampleStep 2 (Some 30)]) initial)))
     = Some (exampleChecklist [exampleStep 1 None, exampleStep 2 (Some 30)])
   \<and> distinct (map order (steps (exampleChecklist [exampleStep 1 None, exampleStep 2 (Some 30)])))
   \<and> completedSteps (toggleStep 2 (toggleStep 1
      (openChecklist (exampleChecklist [exampleStep 1 None, exampleStep 2 (Some 30)]) initial)))
       |\<subseteq>| stepOrders (exampleChecklist [exampleStep 1 None, exampleStep 2 (Some 30)])
   \<and> allStepsComplete (toggleStep 2 (toggleStep 1
      (openChecklist (exampleChecklist [exampleStep 1 None, exampleStep 2 (Some 30)]) initial)))
   \<and> \<not> allStepsComplete (toggleStep 1
      (openChecklist (exampleChecklist [exampleStep 1 None, exampleStep 2 (Some 30)]) initial))"
proof -
  have none: "selectedChecklist initial = None"
    by (simp add: initial_def)
  have empty: "selectedChecklist (openChecklist (exampleChecklist []) initial)
        = Some (exampleChecklist [])
      \<and> steps (exampleChecklist []) = []
      \<and> completedSteps (openChecklist (exampleChecklist []) initial) = {||}"
    by (simp add: openChecklist_def exampleChecklist_def)
  have both: "selectedChecklist (toggleStep 2 (toggleStep 1
      (openChecklist (exampleChecklist [exampleStep 1 None, exampleStep 2 (Some 30)]) initial)))
     = Some (exampleChecklist [exampleStep 1 None, exampleStep 2 (Some 30)])
   \<and> distinct (map order (steps (exampleChecklist [exampleStep 1 None, exampleStep 2 (Some 30)])))
   \<and> completedSteps (toggleStep 2 (toggleStep 1
      (openChecklist (exampleChecklist [exampleStep 1 None, exampleStep 2 (Some 30)]) initial)))
       |\<subseteq>| stepOrders (exampleChecklist [exampleStep 1 None, exampleStep 2 (Some 30)])
   \<and> completedSteps (toggleStep 2 (toggleStep 1
      (openChecklist (exampleChecklist [exampleStep 1 None, exampleStep 2 (Some 30)]) initial)))
       = stepOrders (exampleChecklist [exampleStep 1 None, exampleStep 2 (Some 30)])"
    by (auto simp add: toggleStep_def openChecklist_def exampleChecklist_def exampleStep_def
        stepOrders_def initial_def)
  have one: "selectedChecklist (toggleStep 1
      (openChecklist (exampleChecklist [exampleStep 1 None, exampleStep 2 (Some 30)]) initial))
     = Some (exampleChecklist [exampleStep 1 None, exampleStep 2 (Some 30)])
   \<and> fcard (completedSteps (toggleStep 1
      (openChecklist (exampleChecklist [exampleStep 1 None, exampleStep 2 (Some 30)]) initial)))
     \<noteq> length (steps (exampleChecklist [exampleStep 1 None, exampleStep 2 (Some 30)]))"
    by (simp add: toggleStep_def openChecklist_def exampleChecklist_def fcard_finsert_if
        fcard_fempty)
  from none empty both one
    allStepsComplete_iff_all_orders [of initial "exampleChecklist []"]
    allStepsComplete_iff_all_orders
      [of "openChecklist (exampleChecklist []) initial" "exampleChecklist []"]
    allStepsComplete_iff_all_orders
      [of "toggleStep 2 (toggleStep 1
        (openChecklist (exampleChecklist [exampleStep 1 None, exampleStep 2 (Some 30)]) initial))"
        "exampleChecklist [exampleStep 1 None, exampleStep 2 (Some 30)]"]
    allStepsComplete_iff_all_orders
      [of "toggleStep 1
        (openChecklist (exampleChecklist [exampleStep 1 None, exampleStep 2 (Some 30)]) initial)"
        "exampleChecklist [exampleStep 1 None, exampleStep 2 (Some 30)]"]
  show ?thesis by blast
qed

text \<open>
  C2 as the spec words it says that equal cardinality without set equality must not make
  the condition true. With a checklist whose only step has order 1 open, toggling order 2
  leaves one completed order for one step: the condition holds although the completed
  orders are not the step orders.
\<close>

theorem cardinality_alone_shows_banner:
  "allStepsComplete (toggleStep 2 (openChecklist (exampleChecklist [exampleStep 1 None]) initial))
   \<and> completedSteps (toggleStep 2 (openChecklist (exampleChecklist [exampleStep 1 None]) initial))
       = {|2|}
   \<and> stepOrders (exampleChecklist [exampleStep 1 None]) = {|1|}
   \<and> completedSteps (toggleStep 2 (openChecklist (exampleChecklist [exampleStep 1 None]) initial))
       \<noteq> stepOrders (exampleChecklist [exampleStep 1 None])"
  by (simp add: allStepsComplete_def toggleStep_def openChecklist_def exampleChecklist_def
      exampleStep_def stepOrders_def initial_def fcard_finsert_if fcard_fempty)

subsection \<open>Orders outside the checklist\<close>

lemma dispatch_completedWithin:
  "completedWithin s \<Longrightarrow> toggleFromDefinition e s \<Longrightarrow> completedWithin (fst (dispatch e s))"
  by (cases e)
     (auto simp add: completedWithin_def openChecklist_def closeChecklist_def toggleStep_def
        startTimer_def stopTimer_def tick_def onInterval_def Let_def split: option.splits)

lemma run_completedWithin:
  "completedWithin s \<Longrightarrow> validToggles es s \<Longrightarrow> completedWithin (fst (run es s))"
proof (induction es arbitrary: s)
  case Nil
  then show ?case by simp
next
  case (Cons e es)
  from Cons.prems have step: "completedWithin (fst (dispatch e s))"
    by (simp add: dispatch_completedWithin)
  from Cons.prems have rest: "validToggles es (fst (dispatch e s))"
    by simp
  have "completedWithin (fst (run es (fst (dispatch e s))))"
    using step rest by (rule Cons.IH)
  then show ?case
    by (simp add: split_beta)
qed

text \<open>
  C3, as the code has it. Neither handler checks its order against the checklist and
  neither fails: \<open>toggleStep\<close> flips the membership of whatever order it is given, and
  \<open>startTimer\<close> makes whatever order it is given the active one, with the given seconds,
  running. The completed orders stay within the open checklist's step orders over any
  list of events whose toggles all carry an order of the checklist open at that moment.
\<close>

theorem completed_subset_under_valid_toggles:
  "(completedWithin s \<and> validToggles es s \<longrightarrow> completedWithin (fst (run es s)))
   \<and> (stepOrder |\<in>| completedSteps (toggleStep stepOrder t)) = (stepOrder |\<notin>| completedSteps t)
   \<and> activeTimer (startTimer stepOrder seconds t) = Some stepOrder
   \<and> timerValue (startTimer stepOrder seconds t) = seconds
   \<and> timerRunning (startTimer stepOrder seconds t)"
  by (simp add: run_completedWithin toggleStep_def startTimer_def Let_def)

theorem completed_subset_under_valid_toggles_witness:
  "completedWithin initial
   \<and> validToggles [OpenChecklist (exampleChecklist [exampleStep 1 None, exampleStep 2 (Some 30)]),
        ToggleStep 2, StartTimer 2 30, Tick, ToggleStep 1, ToggleStep 2] initial
   \<and> completedWithin (fst (run
       [OpenChecklist (exampleChecklist [exampleStep 1 None, exampleStep 2 (Some 30)]),
        ToggleStep 2, StartTimer 2 30, Tick, ToggleStep 1, ToggleStep 2] initial))
   \<and> completedSteps (fst (run
       [OpenChecklist (exampleChecklist [exampleStep 1 None, exampleStep 2 (Some 30)]),
        ToggleStep 2, StartTimer 2 30, Tick, ToggleStep 1, ToggleStep 2] initial)) = {|1|}"
proof -
  have a: "completedWithin initial"
    by (simp add: completedWithin_def initial_def)
  have b: "validToggles [OpenChecklist (exampleChecklist [exampleStep 1 None, exampleStep 2 (Some 30)]),
        ToggleStep 2, StartTimer 2 30, Tick, ToggleStep 1, ToggleStep 2] initial"
    by (simp add: openChecklist_def toggleStep_def startTimer_def tick_def onInterval_def
        jsMinus_exact intervalInstalled_def stepOrders_def exampleChecklist_def exampleStep_def initial_def)
  have c: "completedSteps (fst (run
       [OpenChecklist (exampleChecklist [exampleStep 1 None, exampleStep 2 (Some 30)]),
        ToggleStep 2, StartTimer 2 30, Tick, ToggleStep 1, ToggleStep 2] initial)) = {|1|}"
    by (auto simp add: openChecklist_def toggleStep_def startTimer_def tick_def onInterval_def
        jsMinus_exact intervalInstalled_def initial_def)
  from a b c completed_subset_under_valid_toggles
    [of initial "[OpenChecklist (exampleChecklist [exampleStep 1 None, exampleStep 2 (Some 30)]),
        ToggleStep 2, StartTimer 2 30, Tick, ToggleStep 1, ToggleStep 2]"]
  show ?thesis by simp
qed

text \<open>
  C3 as the spec words it makes a call with an order outside the checklist a no-op. With
  a checklist whose only step has order 1 open, \<open>toggleStep 7\<close> changes the state and
  leaves 7 among the completed orders, and \<open>startTimer 7 60\<close> changes the state and makes
  7 the active order.
\<close>

theorem unknown_order_is_not_ignored:
  "toggleStep 7 (openChecklist (exampleChecklist [exampleStep 1 None]) initial)
     \<noteq> openChecklist (exampleChecklist [exampleStep 1 None]) initial
   \<and> completedSteps (toggleStep 7 (openChecklist (exampleChecklist [exampleStep 1 None]) initial))
       = {|7|}
   \<and> 7 |\<notin>| stepOrders (exampleChecklist [exampleStep 1 None])
   \<and> startTimer 7 60 (openChecklist (exampleChecklist [exampleStep 1 None]) initial)
     \<noteq> openChecklist (exampleChecklist [exampleStep 1 None]) initial
   \<and> activeTimer (startTimer 7 60 (openChecklist (exampleChecklist [exampleStep 1 None]) initial))
       = Some 7"
proof -
  have "completedSteps (toggleStep 7 (openChecklist (exampleChecklist [exampleStep 1 None]) initial))
       \<noteq> completedSteps (openChecklist (exampleChecklist [exampleStep 1 None]) initial)"
    by (simp add: toggleStep_def openChecklist_def)
  then have t: "toggleStep 7 (openChecklist (exampleChecklist [exampleStep 1 None]) initial)
     \<noteq> openChecklist (exampleChecklist [exampleStep 1 None]) initial"
    by metis
  have "activeTimer (startTimer 7 60 (openChecklist (exampleChecklist [exampleStep 1 None]) initial))
       \<noteq> activeTimer (openChecklist (exampleChecklist [exampleStep 1 None]) initial)"
    by (simp add: startTimer_def openChecklist_def)
  then have u: "startTimer 7 60 (openChecklist (exampleChecklist [exampleStep 1 None]) initial)
     \<noteq> openChecklist (exampleChecklist [exampleStep 1 None]) initial"
    by metis
  show ?thesis
    using t u
    by (simp add: toggleStep_def startTimer_def openChecklist_def stepOrders_def
        exampleChecklist_def exampleStep_def)
qed

subsection \<open>One timer at a time\<close>

text \<open>
  C4. For steps \<open>a\<close> and \<open>b\<close> with \<open>b \<noteq> a\<close>, \<open>startTimer\<close> on \<open>a\<close> and then on \<open>b\<close>
  leaves \<open>b\<close> the active order with \<open>b\<close>'s seconds, running; the row of \<open>a\<close> no longer
  shows an active timer, and the state is the one reached had \<open>a\<close>'s timer never been
  started. In every state at most one order owns the timer: two orders whose rows both
  show the active timer are the same order.
\<close>

theorem start_replaces_previous_timer:
  "(a \<noteq> b \<longrightarrow>
      activeTimer (startTimer b sb (startTimer a sa s)) = Some b
      \<and> timerValue (startTimer b sb (startTimer a sa s)) = sb
      \<and> timerRunning (startTimer b sb (startTimer a sa s))
      \<and> \<not> showsActiveTimer (startTimer b sb (startTimer a sa s)) a
      \<and> startTimer b sb (startTimer a sa s) = startTimer b sb s)
   \<and> (showsActiveTimer t x \<and> showsActiveTimer t y \<longrightarrow> x = y)"
  by (auto simp add: startTimer_def showsActiveTimer_def)

theorem start_replaces_previous_timer_witness:
  "(1::int) \<noteq> 2
   \<and> activeTimer (startTimer 2 30 (startTimer 1 45 initial)) = Some 2
   \<and> timerValue (startTimer 2 30 (startTimer 1 45 initial)) = 30
   \<and> \<not> showsActiveTimer (startTimer 2 30 (startTimer 1 45 initial)) 1
   \<and> startTimer 2 30 (startTimer 1 45 initial) = startTimer 2 30 initial
   \<and> showsActiveTimer (startTimer 2 30 initial) 2"
  using start_replaces_previous_timer [of 1 2 30 45 initial "startTimer 2 30 initial" 2 2]
  by (simp add: showsActiveTimer_def startTimer_def)

subsection \<open>Toggling a step\<close>

lemma toggleStep_twice: "toggleStep stepOrder (toggleStep stepOrder s) = s"
proof (cases "stepOrder |\<in>| completedSteps s")
  case True
  then have "finsert stepOrder (completedSteps s |-| {|stepOrder|}) = completedSteps s"
    by auto
  with True show ?thesis
    by (simp add: toggleStep_def Let_def)
next
  case False
  then have "finsert stepOrder (completedSteps s) |-| {|stepOrder|} = completedSteps s"
    by auto
  with False show ?thesis
    by (simp add: toggleStep_def Let_def)
qed

lemma toggleStep_member:
  "(x |\<in>| completedSteps (toggleStep stepOrder s)) =
     (if x = stepOrder then x |\<notin>| completedSteps s else x |\<in>| completedSteps s)"
  by (auto simp add: toggleStep_def Let_def)

lemma toggleStep_funpow_member:
  "(x |\<in>| completedSteps ((toggleStep stepOrder ^^ n) s)) =
     (if x = stepOrder then (x |\<in>| completedSteps s) = even n else x |\<in>| completedSteps s)"
  by (induction n) (auto simp add: toggleStep_member)

text \<open>
  C5. \<open>toggleStep\<close> removes the order from the completed orders when it is there and adds
  it when it is not, so each call flips the order's membership: after \<open>n\<close> calls the order
  is a member exactly when its membership at the start agrees with \<open>n\<close> being even. Two
  calls on the same order give back the state. This holds for every order, the checklist's
  own among them.
\<close>

theorem toggleStep_flips_membership:
  "completedSteps (toggleStep stepOrder s) =
     (if stepOrder |\<in>| completedSteps s then completedSteps s |-| {|stepOrder|}
      else finsert stepOrder (completedSteps s))
   \<and> (stepOrder |\<in>| completedSteps (toggleStep stepOrder s)) = (stepOrder |\<notin>| completedSteps s)
   \<and> (stepOrder |\<in>| completedSteps ((toggleStep stepOrder ^^ n) s)) =
       ((stepOrder |\<in>| completedSteps s) = even n)
   \<and> toggleStep stepOrder (toggleStep stepOrder s) = s"
  by (simp add: toggleStep_twice toggleStep_member toggleStep_funpow_member)
     (simp add: toggleStep_def Let_def)

subsection \<open>Pausing\<close>

text \<open>
  C6. \<open>stopTimer\<close> sets \<open>timerRunning\<close> to false and changes nothing else: the active
  order, the seconds left, the completed orders and the open checklist are as before,
  and the whole state is the old one with only that cell replaced.
\<close>

theorem stopTimer_only_pauses:
  "timerRunning (stopTimer s) = False
   \<and> activeTimer (stopTimer s) = activeTimer s
   \<and> timerValue (stopTimer s) = timerValue s
   \<and> completedSteps (stopTimer s) = completedSteps s
   \<and> selectedChecklist (stopTimer s) = selectedChecklist s
   \<and> stopTimer s = s\<lparr>timerRunning := False\<rparr>"
  by (simp add: stopTimer_def)

text \<open>
  C7. From any state whose timer is not running, and so after any \<open>stopTimer\<close>, any
  number of ticks leaves the whole state as it is (seconds left, active order, running
  flag, completed orders) and raises no alert.
\<close>

theorem ticks_ignored_while_paused:
  "(\<not> timerRunning s \<longrightarrow> ticks n s = (s, []))
   \<and> ticks n (stopTimer t) = (stopTimer t, [])"
  by (simp add: ticks_idle intervalInstalled_def stopTimer_def)

theorem ticks_ignored_while_paused_witness:
  "\<not> timerRunning (stopTimer (fst (ticks 2 (startTimer 2 30 initial))))
   \<and> ticks 10 (stopTimer (fst (ticks 2 (startTimer 2 30 initial))))
       = (initial\<lparr>activeTimer := Some 2, timerValue := 28\<rparr>, [])"
  using ticks_ignored_while_paused [of "stopTimer (fst (ticks 2 (startTimer 2 30 initial)))" 10]
  by (simp add: eval_nat_numeral tick_def intervalInstalled_def onInterval_def jsMinus_exact startTimer_def
      stopTimer_def initial_def)

subsection \<open>Opening a checklist\<close>

lemma dispatch_fetch_cells:
  "checklists (fst (dispatch e s)) = checklists s
   \<and> loading (fst (dispatch e s)) = loading s
   \<and> refreshing (fst (dispatch e s)) = refreshing s"
  by (cases e)
     (simp_all add: openChecklist_def closeChecklist_def toggleStep_def startTimer_def
        stopTimer_def tick_def onInterval_def Let_def)

lemma run_fetch_cells:
  "checklists (fst (run es s)) = checklists s
   \<and> loading (fst (run es s)) = loading s
   \<and> refreshing (fst (run es s)) = refreshing s"
  by (induction es arbitrary: s) (simp_all add: split_beta dispatch_fetch_cells)

lemma openChecklist_forgets:
  "checklists s = checklists t \<Longrightarrow> loading s = loading t \<Longrightarrow> refreshing s = refreshing t \<Longrightarrow>
   openChecklist c s = openChecklist c t"
  by (cases s, cases t) (simp add: openChecklist_def)

text \<open>
  C8. Whatever the state before, \<open>openChecklist\<close> selects the checklist with no completed
  order, no active order, 0 seconds and a stopped timer. Opening a checklist again after
  any list of the events of a session gives the same state as opening it the first time.
\<close>

theorem openChecklist_fresh:
  "selectedChecklist (openChecklist c s) = Some c
   \<and> completedSteps (openChecklist c s) = {||}
   \<and> activeTimer (openChecklist c s) = None
   \<and> timerValue (openChecklist c s) = 0
   \<and> timerRunning (openChecklist c s) = False
   \<and> openChecklist c (fst (run es (openChecklist c s))) = openChecklist c s"
proof -
  have "openChecklist c (fst (run es (openChecklist c s))) = openChecklist c (openChecklist c s)"
    by (rule openChecklist_forgets) (simp_all add: run_fetch_cells)
  also have "\<dots> = openChecklist c s"
    by (simp add: openChecklist_def)
  finally show ?thesis
    by (simp add: openChecklist_def)
qed

subsection \<open>Pause and resume\<close>

text \<open>
  C9. From a state whose timer runs on step \<open>stepOrder\<close> with \<open>r > 0\<close> seconds left,
  \<open>stopTimer\<close> keeps the order and the seconds, and \<open>startTimer stepOrder r\<close> after it
  gives back exactly the state before the pause, so the countdown goes on as if it had
  not been paused. The pause/play button of that step's row does the same: the first
  press is \<open>stopTimer\<close>, and two presses give back the state.
\<close>

theorem pause_resume_roundtrip:
  "activeTimer s = Some stepOrder \<and> timerValue s = r \<and> 0 < r \<and> timerRunning s \<longrightarrow>
     startTimer stepOrder r (stopTimer s) = s
     \<and> activeTimer (stopTimer s) = Some stepOrder \<and> timerValue (stopTimer s) = r
     \<and> ticks n (startTimer stepOrder r (stopTimer s)) = ticks n s
     \<and> (order step = stepOrder \<and> timer_seconds step = Some d \<and> d \<noteq> 0 \<longrightarrow>
          pressTimerButton step s = stopTimer s
          \<and> pressTimerButton step (pressTimerButton step s) = s)"
proof (intro impI, elim conjE)
  assume a: "activeTimer s = Some stepOrder" and v: "timerValue s = r" and p: "0 < r"
    and run: "timerRunning s"
  have resumed: "startTimer stepOrder r (stopTimer s) = s"
    using a v run by (cases s) (simp add: startTimer_def stopTimer_def)
  have button: "pressTimerButton step s = stopTimer s
      \<and> pressTimerButton step (pressTimerButton step s) = s"
    if "order step = stepOrder" "timer_seconds step = Some d" "d \<noteq> 0"
  proof -
    have one: "pressTimerButton step s = stopTimer s"
      using that a run by (simp add: pressTimerButton_def)
    have "pressTimerButton step (stopTimer s) = startTimer stepOrder r (stopTimer s)"
      using that a v p by (simp add: pressTimerButton_def stopTimer_def)
    with one resumed show ?thesis by simp
  qed
  have paused: "activeTimer (stopTimer s) = Some stepOrder \<and> timerValue (stopTimer s) = r"
    using a v by (simp add: stopTimer_def)
  have same: "ticks n (startTimer stepOrder r (stopTimer s)) = ticks n s"
    by (simp only: resumed)
  from resumed paused same button
  show "startTimer stepOrder r (stopTimer s) = s
     \<and> activeTimer (stopTimer s) = Some stepOrder \<and> timerValue (stopTimer s) = r
     \<and> ticks n (startTimer stepOrder r (stopTimer s)) = ticks n s
     \<and> (order step = stepOrder \<and> timer_seconds step = Some d \<and> d \<noteq> 0 \<longrightarrow>
          pressTimerButton step s = stopTimer s
          \<and> pressTimerButton step (pressTimerButton step s) = s)"
    by blast
qed

theorem pause_resume_roundtrip_witness:
  "activeTimer (fst (ticks 2 (startTimer 2 30 initial))) = Some 2
   \<and> timerValue (fst (ticks 2 (startTimer 2 30 initial))) = 28
   \<and> (0::int) < 28
   \<and> timerRunning (fst (ticks 2 (startTimer 2 30 initial)))
   \<and> order (exampleStep 2 (Some 30)) = 2
   \<and> timer_seconds (exampleStep 2 (Some 30)) = Some 30
   \<and> (30::int) \<noteq> 0
   \<and> startTimer 2 28 (stopTimer (fst (ticks 2 (startTimer 2 30 initial))))
       = fst (ticks 2 (startTimer 2 30 initial))
   \<and> pressTimerButton (exampleStep 2 (Some 30))
        (pressTimerButton (exampleStep 2 (Some 30)) (fst (ticks 2 (startTimer 2 30 initial))))
       = fst (ticks 2 (startTimer 2 30 initial))"
proof -
  have s: "fst (ticks 2 (startTimer 2 30 initial))
      = initial\<lparr>activeTimer := Some 2, timerValue := 28, timerRunning := True\<rparr>"
    by (simp add: eval_nat_numeral tick_def intervalInstalled_def onInterval_def jsMinus_exact startTimer_def)
  have h: "activeTimer (fst (ticks 2 (startTimer 2 30 initial))) = Some 2
   \<and> timerValue (fst (ticks 2 (startTimer 2 30 initial))) = 28
   \<and> (0::int) < 28
   \<and> timerRunning (fst (ticks 2 (startTimer 2 30 initial)))"
    by (simp add: s)
  have g: "order (exampleStep 2 (Some 30)) = 2
   \<and> timer_seconds (exampleStep 2 (Some 30)) = Some 30 \<and> (30::int) \<noteq> 0"
    by (simp add: exampleStep_def)
  from h g pause_resume_roundtrip
    [of "fst (ticks 2 (startTimer 2 30 initial))" 2 28 0 "exampleStep 2 (Some 30)" 30]
  show ?thesis by blast
qed

subsection \<open>Starting without checks\<close>

text \<open>
  C10. \<open>startTimer\<close> checks nothing: for any order and any seconds it makes that order
  the active one, stores those seconds and sets the timer running. Started with 0
  seconds, no interval is installed, so over any number of ticks the seconds stay 0,
  the timer stays running and no alert is raised.
\<close>

theorem startTimer_unchecked:
  "activeTimer (startTimer stepOrder seconds s) = Some stepOrder
   \<and> timerValue (startTimer stepOrder seconds s) = seconds
   \<and> timerRunning (startTimer stepOrder seconds s)
   \<and> \<not> intervalInstalled (startTimer stepOrder 0 s)
   \<and> ticks n (startTimer stepOrder 0 s) = (startTimer stepOrder 0 s, [])
   \<and> timerValue (fst (ticks n (startTimer stepOrder 0 s))) = 0
   \<and> timerRunning (fst (ticks n (startTimer stepOrder 0 s)))
   \<and> snd (ticks n (startTimer stepOrder 0 s)) = []"
proof -
  have idle: "\<not> intervalInstalled (startTimer stepOrder 0 s)"
    by (simp add: intervalInstalled_def startTimer_def)
  then have "ticks n (startTimer stepOrder 0 s) = (startTimer stepOrder 0 s, [])"
    by (rule ticks_idle)
  with idle show ?thesis
    by (simp add: startTimer_def)
qed

end
